theory Spec2Isabelle
  imports Complex_Main "HOL-Library.Sublist"
begin

section \<open>Python values used by the analyzer scripts\<close>

text \<open>
  Strings are byte lists. The three string tests of the scripts are the list predicates
  of the library theory Sublist: \<^verbatim>\<open>s.startswith(p)\<close> is \<open>prefix p s\<close>,
  \<^verbatim>\<open>s.endswith(p)\<close> is \<open>suffix p s\<close> and \<^verbatim>\<open>p in s\<close> (on strings) is
  \<open>sublist p s\<close>. Exceptions are values of \<open>py_error\<close>; a function that can raise
  returns \<open>py_error + 'a\<close>. The priority score, a product of three table entries, is
  read as an exact rational; the health score is computed in binary floating point,
  which is modelled with its rounding.
\<close>

datatype py_error = TypeError | KeyError | AttributeError | ZeroDivisionError

text \<open>\<^verbatim>\<open>d.get(k, default)\<close> on a dictionary literal, kept as an association list.\<close>

definition dict_get :: "('k \<times> 'v) list \<Rightarrow> 'k \<Rightarrow> 'v \<Rightarrow> 'v" where
  "dict_get m k d = (case map_of m k of None \<Rightarrow> d | Some v \<Rightarrow> v)"

section \<open>Data model of detect-patterns.py\<close>

text \<open>
  A rule of the YAML document is a dictionary; a key that is absent is \<open>None\<close>.
  \<^verbatim>\<open>check\<close> is a string or a list of strings (\<^verbatim>\<open>isinstance(check, str)\<close>).
  The \<^verbatim>\<open>criteria\<close> key is only passed to \<^verbatim>\<open>_check_file_quality\<close>, which ignores it,
  and is left out.
\<close>

datatype check_val = CheckStr string | CheckList "string list"

record variant =
  v_condition :: "string option"
  v_template :: "string option"

record rule_recommendation =
  rc_template :: "string option"
  rc_reason :: "string option"
  rc_variants :: "variant list option"

record pattern =
  p_id :: "string option"
  p_type :: "string option"
  p_check :: "check_val option"
  p_applies_when :: "string option"
  p_confidence :: "string option"
  p_severity :: "string option"
  p_recommendation :: "rule_recommendation option"

record project_structure =
  ps_project_name :: "string option"
  ps_project_types :: "string list"
  ps_frameworks :: "string list"
  ps_files :: "string list"
  ps_directories :: "string list"

record detection =
  d_id :: "string option"
  d_type :: "string option"
  d_confidence :: string
  d_severity :: string
  d_issue_found :: bool
  d_recommendation :: "rule_recommendation option"

record recommendation =
  r_id :: "string option"
  r_template :: string
  r_reason :: string
  r_severity :: string
  r_confidence :: string
  r_priority_score :: rat

record summary =
  total_patterns :: int
  issues_found :: int
  high_severity :: int
  medium_severity :: int
  low_severity :: int

record results =
  res_project_name :: string
  res_project_types :: "string list"
  res_frameworks :: "string list"
  detections :: "detection list"
  recommendations :: "recommendation list"
  summary :: summary

section \<open>PatternDetector\<close>

subsection \<open>The three checks\<close>

text \<open>
  \<^verbatim>\<open>_check_file_absence\<close>: \<^verbatim>\<open>check not in files and not any(f.endswith(check) for f in files)\<close>
  with \<^verbatim>\<open>files\<close> a set. A list is unhashable, so the membership test raises TypeError;
  with \<^verbatim>\<open>check = None\<close> the membership test is true and \<^verbatim>\<open>f.endswith(None)\<close> raises
  TypeError on the first file, if there is one.
\<close>

definition check_file_absence :: "check_val option \<Rightarrow> string list \<Rightarrow> py_error + bool" where
  "check_file_absence check fs =
     (case check of
        Some (CheckStr c) \<Rightarrow> Inr (c \<notin> set fs \<and> \<not> list_ex (suffix c) fs)
      | Some (CheckList cs) \<Rightarrow> Inl TypeError
      | None \<Rightarrow> (if fs = [] then Inr True else Inl TypeError))"

text \<open>The \<^verbatim>\<open>for path in check\<close> loop of \<^verbatim>\<open>_check_directory_absence\<close>, with its returns.\<close>

fun directory_absence_loop :: "string list \<Rightarrow> string list \<Rightarrow> bool" where
  "directory_absence_loop [] ds = True"
| "directory_absence_loop (path # rest) ds =
     (if suffix ''.yml'' path \<or> suffix ''.yaml'' path then True
      else if list_ex (prefix path) ds then False
      else directory_absence_loop rest ds)"

definition check_directory_absence :: "check_val option \<Rightarrow> string list \<Rightarrow> py_error + bool" where
  "check_directory_absence check ds =
     (case check of
        Some (CheckStr c) \<Rightarrow> Inr (directory_absence_loop [c] ds)
      | Some (CheckList cs) \<Rightarrow> Inr (directory_absence_loop cs ds)
      | None \<Rightarrow> Inl TypeError)"

text \<open>
  \<^verbatim>\<open>_check_file_quality\<close> tests \<^verbatim>\<open>file_path not in files\<close> on the list of the project
  structure (no hashing, so no error) and returns False on both paths.
\<close>

definition check_file_quality :: "check_val option \<Rightarrow> project_structure \<Rightarrow> bool" where
  "check_file_quality file_path ps =
     (if \<not> (case file_path of Some (CheckStr c) \<Rightarrow> c \<in> set (ps_files ps) | _ \<Rightarrow> False)
      then False else False)"

subsection \<open>Conditions and variants\<close>

text \<open>\<^verbatim>\<open>_check_condition\<close> reads only the condition and the file set.\<close>

definition check_condition :: "string \<Rightarrow> string list \<Rightarrow> bool" where
  "check_condition condition fs =
     (if sublist ''package.json exists'' condition then ''package.json'' \<in> set fs
      else if sublist ''requirements.txt'' condition \<or> sublist ''setup.py exists'' condition
        then ''requirements.txt'' \<in> set fs \<or> ''setup.py'' \<in> set fs
      else if sublist ''pom.xml'' condition \<or> sublist ''build.gradle exists'' condition
        then list_ex (\<lambda>f. sublist ''pom.xml'' f \<or> sublist ''build.gradle'' f) fs
      else True)"

fun select_variant :: "variant list \<Rightarrow> string list \<Rightarrow> variant option" where
  "select_variant [] fs = None"
| "select_variant (v # vs) fs =
     (if check_condition (case v_condition v of None \<Rightarrow> [] | Some c \<Rightarrow> c) fs then Some v
      else select_variant vs fs)"

text \<open>
  The copy of the rule's recommendation with the variant's template written into it.
  \<^verbatim>\<open>if variant:\<close> is false for an empty dictionary; \<^verbatim>\<open>variant['template']\<close> raises
  KeyError when the key is absent.
\<close>

definition resolve_recommendation ::
    "rule_recommendation \<Rightarrow> string list \<Rightarrow> py_error + rule_recommendation" where
  "resolve_recommendation rc fs =
     (case rc_variants rc of
        None \<Rightarrow> Inr rc
      | Some vs \<Rightarrow>
          (case select_variant vs fs of
             None \<Rightarrow> Inr rc
           | Some v \<Rightarrow>
               if v_condition v = None \<and> v_template v = None then Inr rc
               else (case v_template v of
                       None \<Rightarrow> Inl KeyError
                     | Some t \<Rightarrow> Inr (rc\<lparr>rc_template := Some t\<rparr>))))"

subsection \<open>Applying one rule\<close>

text \<open>\<^verbatim>\<open>if applies_when:\<close> is false for an absent key and for the empty string.\<close>

definition not_applicable :: "pattern \<Rightarrow> string list \<Rightarrow> bool" where
  "not_applicable pat fs =
     (case p_applies_when pat of
        None \<Rightarrow> False
      | Some c \<Rightarrow> c \<noteq> [] \<and> \<not> check_condition c fs)"

definition initial_detection :: "pattern \<Rightarrow> detection" where
  "initial_detection pat =
     \<lparr>d_id = p_id pat, d_type = p_type pat,
      d_confidence = (case p_confidence pat of None \<Rightarrow> ''medium'' | Some c \<Rightarrow> c),
      d_severity = (case p_severity pat of None \<Rightarrow> ''medium'' | Some s \<Rightarrow> s),
      d_issue_found = False, d_recommendation = None\<rparr>"

definition dispatch_check ::
    "pattern \<Rightarrow> string list \<Rightarrow> string list \<Rightarrow> project_structure \<Rightarrow> py_error + bool" where
  "dispatch_check pat fs ds ps =
     (if p_type pat = Some ''file_absence'' then check_file_absence (p_check pat) fs
      else if p_type pat = Some ''directory_absence'' then check_directory_absence (p_check pat) ds
      else if p_type pat = Some ''file_quality'' then Inr (check_file_quality (p_check pat) ps)
      else Inr False)"

definition apply_pattern ::
    "pattern \<Rightarrow> string list \<Rightarrow> string list \<Rightarrow> project_structure \<Rightarrow> py_error + detection option" where
  "apply_pattern pat fs ds ps =
     (if not_applicable pat fs then Inr None
      else case dispatch_check pat fs ds ps of
             Inl e \<Rightarrow> Inl e
           | Inr found \<Rightarrow>
               (let detection = (initial_detection pat)\<lparr>d_issue_found := found\<rparr>
                in if found then
                     (case p_recommendation pat of
                        None \<Rightarrow> Inr (Some detection)
                      | Some rc \<Rightarrow>
                          (case resolve_recommendation rc fs of
                             Inl e \<Rightarrow> Inl e
                           | Inr rc' \<Rightarrow> Inr (Some (detection\<lparr>d_recommendation := Some rc'\<rparr>))))
                   else Inr (Some detection)))"

subsection \<open>Priority\<close>

definition confidence_map :: "(string \<times> rat) list" where
  "confidence_map = [(''high'', 1), (''medium'', 7 / 10), (''low'', 4 / 10)]"

definition severity_map :: "(string \<times> rat) list" where
  "severity_map = [(''high'', 10), (''medium'', 5), (''low'', 2)]"

definition multiplier_map :: "(string \<times> rat) list" where
  "multiplier_map = [(''high'', 1), (''medium'', 6 / 10), (''low'', 3 / 10)]"

definition calculate_priority :: "detection \<Rightarrow> rat" where
  "calculate_priority d =
     (let confidence = dict_get confidence_map (d_confidence d) (7 / 10);
          severity = d_severity d;
          priority_score = dict_get severity_map severity 5;
          multiplier = dict_get multiplier_map severity (6 / 10)
      in confidence * multiplier * priority_score)"

text \<open>The lookup tables as the specification words them.\<close>

definition spec_confidence_weight :: "string \<Rightarrow> rat" where
  "spec_confidence_weight c =
     (if c = ''high'' then 1 else if c = ''medium'' then 7 / 10
      else if c = ''low'' then 4 / 10 else 7 / 10)"

definition spec_severity_base :: "string \<Rightarrow> rat" where
  "spec_severity_base s =
     (if s = ''high'' then 10 else if s = ''medium'' then 5 else if s = ''low'' then 2 else 5)"

definition spec_severity_multiplier :: "string \<Rightarrow> rat" where
  "spec_severity_multiplier s =
     (if s = ''high'' then 1 else if s = ''medium'' then 6 / 10
      else if s = ''low'' then 3 / 10 else 6 / 10)"

subsection \<open>The detection loop\<close>

text \<open>
  One iteration of \<^verbatim>\<open>for pattern in self.patterns\<close>. The dictionary literal of the
  recommendation reads \<^verbatim>\<open>detection['recommendation']['template']\<close> and \<^verbatim>\<open>['reason']\<close>,
  which raise KeyError when the rule's recommendation lacks the key.
\<close>

definition count_issue :: "string \<Rightarrow> summary \<Rightarrow> summary" where
  "count_issue severity sm =
     (let sm1 = sm\<lparr>issues_found := issues_found sm + 1\<rparr>
      in if severity = ''high'' then sm1\<lparr>high_severity := high_severity sm1 + 1\<rparr>
         else if severity = ''medium'' then sm1\<lparr>medium_severity := medium_severity sm1 + 1\<rparr>
         else if severity = ''low'' then sm1\<lparr>low_severity := low_severity sm1 + 1\<rparr>
         else sm1)"

definition make_recommendation :: "detection \<Rightarrow> rule_recommendation \<Rightarrow> py_error + recommendation" where
  "make_recommendation d rc =
     (case rc_template rc of
        None \<Rightarrow> Inl KeyError
      | Some t \<Rightarrow>
          (case rc_reason rc of
             None \<Rightarrow> Inl KeyError
           | Some rs \<Rightarrow>
               Inr \<lparr>r_id = d_id d, r_template = t, r_reason = rs, r_severity = d_severity d,
                    r_confidence = d_confidence d, r_priority_score = calculate_priority d\<rparr>))"

definition detect_step ::
    "string list \<Rightarrow> string list \<Rightarrow> project_structure \<Rightarrow> results \<Rightarrow> pattern \<Rightarrow> py_error + results" where
  "detect_step fs ds ps res pat =
     (case apply_pattern pat fs ds ps of
        Inl e \<Rightarrow> Inl e
      | Inr None \<Rightarrow> Inr res
      | Inr (Some d) \<Rightarrow>
          (let res1 = res\<lparr>detections := detections res @ [d]\<rparr>
           in if d_issue_found d then
                (let res2 = res1\<lparr>summary := count_issue (d_severity d) (summary res1)\<rparr>
                 in case d_recommendation d of
                      None \<Rightarrow> Inr res2
                    | Some rc \<Rightarrow>
                        (case make_recommendation d rc of
                           Inl e \<Rightarrow> Inl e
                         | Inr r \<Rightarrow> Inr (res2\<lparr>recommendations := recommendations res2 @ [r]\<rparr>)))
              else Inr res1))"

fun detect_loop ::
    "string list \<Rightarrow> string list \<Rightarrow> project_structure \<Rightarrow> pattern list \<Rightarrow> results \<Rightarrow> py_error + results" where
  "detect_loop fs ds ps [] res = Inr res"
| "detect_loop fs ds ps (pat # pats) res =
     (case detect_step fs ds ps res pat of
        Inl e \<Rightarrow> Inl e
      | Inr res' \<Rightarrow> detect_loop fs ds ps pats res')"

text \<open>
  \<^verbatim>\<open>list.sort(key=..., reverse=True)\<close>: Python's sort is stable, and with
  \<^verbatim>\<open>reverse=True\<close> elements with equal keys keep their original order. It is the
  stable insertion sort of the library on the negated key.
\<close>

definition sort_by_priority :: "recommendation list \<Rightarrow> recommendation list" where
  "sort_by_priority rs = sort_key (\<lambda>r. - r_priority_score r) rs"

definition initial_results :: "pattern list \<Rightarrow> project_structure \<Rightarrow> results" where
  "initial_results patterns ps =
     \<lparr>res_project_name = (case ps_project_name ps of None \<Rightarrow> ''unknown'' | Some n \<Rightarrow> n),
      res_project_types = ps_project_types ps,
      res_frameworks = ps_frameworks ps,
      detections = [],
      recommendations = [],
      summary = \<lparr>total_patterns = int (length patterns), issues_found = 0, high_severity = 0,
                 medium_severity = 0, low_severity = 0\<rparr>\<rparr>"

definition detect :: "pattern list \<Rightarrow> project_structure \<Rightarrow> py_error + results" where
  "detect patterns ps =
     (case detect_loop (ps_files ps) (ps_directories ps) ps patterns (initial_results patterns ps) of
        Inl e \<Rightarrow> Inl e
      | Inr res \<Rightarrow> Inr (res\<lparr>recommendations := sort_by_priority (recommendations res)\<rparr>))"

text \<open>
  What one rule adds to the recommendations before sorting, read off \<open>detect_step\<close>:
  used to speak about the order of the rules in the configuration.
\<close>

definition pattern_recommendations ::
    "string list \<Rightarrow> string list \<Rightarrow> project_structure \<Rightarrow> pattern \<Rightarrow> recommendation list" where
  "pattern_recommendations fs ds ps pat =
     (case apply_pattern pat fs ds ps of
        Inr (Some d) \<Rightarrow>
          (if d_issue_found d then
             (case d_recommendation d of
                Some rc \<Rightarrow> (case make_recommendation d rc of Inr r \<Rightarrow> [r] | Inl e \<Rightarrow> [])
              | None \<Rightarrow> [])
           else [])
      | _ \<Rightarrow> [])"

section \<open>ProjectAnalyzer (analyze-structure.py)\<close>

subsection \<open>The project tree and the exclusion policy\<close>

text \<open>
  A directory listing is a list of entries in the order \<^verbatim>\<open>os.walk\<close> reads them; an
  entry is a file name or a directory name with its own listing. A \<^verbatim>\<open>Path\<close> relative to
  the project root is the list of its components; \<^verbatim>\<open>str\<close> joins them with a slash
  (\<^verbatim>\<open>str(Path('.'))\<close> is \<^verbatim>\<open>'.'\<close>).
\<close>

datatype fs_entry = File string | Dir string "fs_entry list"

fun path_str :: "string list \<Rightarrow> string" where
  "path_str [] = ''.''"
| "path_str [c] = c"
| "path_str (c # cs) = c @ ''/'' @ path_str cs"

definition skip_patterns :: "string list" where
  "skip_patterns =
     [''node_modules'', ''__pycache__'', ''.git'', ''.venv'', ''venv'',
      ''target'', ''dist'', ''build'', ''.next'', ''.nuxt'',
      ''*.pyc'', ''*.class'', ''*.o'', ''*.so'']"

fun should_skip_loop :: "string list \<Rightarrow> string \<Rightarrow> bool" where
  "should_skip_loop [] name = False"
| "should_skip_loop (pattern # rest) name =
     (if prefix ''*'' pattern then
        (if suffix (drop 1 pattern) name then True else should_skip_loop rest name)
      else if name = pattern \<or> prefix pattern name then True
      else should_skip_loop rest name)"

definition should_skip :: "string \<Rightarrow> bool" where
  "should_skip name = should_skip_loop skip_patterns name"

subsection \<open>scan_structure\<close>

text \<open>
  The part of the structure dictionary that the walk fills, and the project types. The
  frameworks and the \<^verbatim>\<open>has_git\<close>, \<^verbatim>\<open>has_ci\<close>, \<^verbatim>\<open>has_tests\<close> flags are computed after the
  walk and do not change these fields; they are left out.
\<close>

record inventory =
  inv_files :: "string list"
  inv_directories :: "string list"
  inv_file_count :: int
  inv_directory_count :: int
  inv_project_types :: "string list"

text \<open>\<^verbatim>\<open>dirs[:] = [d for d in dirs if not self._should_skip(d)]\<close> on the names of a listing.\<close>

fun kept_dir_names :: "fs_entry list \<Rightarrow> string list" where
  "kept_dir_names [] = []"
| "kept_dir_names (File n # es) = kept_dir_names es"
| "kept_dir_names (Dir d sub # es) =
     (if should_skip d then kept_dir_names es else d # kept_dir_names es)"

fun file_names :: "fs_entry list \<Rightarrow> string list" where
  "file_names [] = []"
| "file_names (File n # es) = n # file_names es"
| "file_names (Dir d sub # es) = file_names es"

text \<open>\<^verbatim>\<open>for dir_name in dirs\<close> and \<^verbatim>\<open>for file_name in files\<close> of one step of the walk.\<close>

fun add_dirs :: "string list \<Rightarrow> string list \<Rightarrow> inventory \<Rightarrow> inventory" where
  "add_dirs rel_root [] st = st"
| "add_dirs rel_root (dir_name # dirs) st =
     add_dirs rel_root dirs
       (st\<lparr>inv_directories := inv_directories st @ [path_str (rel_root @ [dir_name])],
           inv_directory_count := inv_directory_count st + 1\<rparr>)"

fun add_files :: "string list \<Rightarrow> string list \<Rightarrow> inventory \<Rightarrow> inventory" where
  "add_files rel_root [] st = st"
| "add_files rel_root (file_name # files) st =
     add_files rel_root files
       (if \<not> should_skip file_name then
          st\<lparr>inv_files := inv_files st @ [path_str (rel_root @ [file_name])],
             inv_file_count := inv_file_count st + 1\<rparr>
        else st)"

text \<open>
  \<^verbatim>\<open>os.walk\<close> is top-down: it yields a directory, the loop body prunes and records its
  listing, and the walk then descends into the directories that were kept, in order.
\<close>

fun walk :: "string list \<Rightarrow> fs_entry list \<Rightarrow> inventory \<Rightarrow> inventory"
  and walk_into :: "string list \<Rightarrow> fs_entry list \<Rightarrow> inventory \<Rightarrow> inventory" where
  "walk rel_root entries st =
     walk_into rel_root entries
       (add_files rel_root (file_names entries)
          (add_dirs rel_root (kept_dir_names entries) st))"
| "walk_into rel_root [] st = st"
| "walk_into rel_root (File n # es) st = walk_into rel_root es st"
| "walk_into rel_root (Dir d sub # es) st =
     (if should_skip d then walk_into rel_root es st
      else walk_into rel_root es (walk (rel_root @ [d]) sub st))"

subsection \<open>Project types\<close>

definition PROJECT_INDICATORS :: "(string \<times> string list) list" where
  "PROJECT_INDICATORS =
     [(''node'', [''package.json'', ''package-lock.json'', ''node_modules/'']),
      (''python'', [''requirements.txt'', ''setup.py'', ''pyproject.toml'', ''__pycache__/'']),
      (''java'', [''pom.xml'', ''build.gradle'', ''build.gradle.kts'', ''gradlew'']),
      (''rust'', [''Cargo.toml'', ''Cargo.lock'', ''target/'']),
      (''go'', [''go.mod'', ''go.sum'']),
      (''ruby'', [''Gemfile'', ''Gemfile.lock'']),
      (''php'', [''composer.json'', ''composer.lock'']),
      (''csharp'', [''*.csproj'', ''*.sln''])]"

text \<open>
  The inner loop \<^verbatim>\<open>for indicator in indicators\<close>: True when it reaches
  \<^verbatim>\<open>detected_types.append(project_type); break\<close>.
\<close>

fun indicators_loop :: "string list \<Rightarrow> string list \<Rightarrow> string list \<Rightarrow> bool" where
  "indicators_loop [] files directories = False"
| "indicators_loop (indicator # rest) files directories =
     (if suffix ''/'' indicator then
        (if list_ex (prefix (butlast indicator)) directories then True
         else indicators_loop rest files directories)
      else if prefix ''*'' indicator then
        (if list_ex (suffix (drop 1 indicator)) files then True
         else indicators_loop rest files directories)
      else
        (if indicator \<in> set files \<or> list_ex (suffix indicator) files then True
         else indicators_loop rest files directories))"

fun project_types_loop ::
    "(string \<times> string list) list \<Rightarrow> string list \<Rightarrow> string list \<Rightarrow> string list \<Rightarrow> string list" where
  "project_types_loop [] files directories detected_types = detected_types"
| "project_types_loop ((project_type, indicators) # rest) files directories detected_types =
     project_types_loop rest files directories
       (if indicators_loop indicators files directories then detected_types @ [project_type]
        else detected_types)"

definition detect_project_types :: "string list \<Rightarrow> string list \<Rightarrow> string list" where
  "detect_project_types files directories =
     project_types_loop PROJECT_INDICATORS files directories []"

definition scan_structure :: "fs_entry list \<Rightarrow> inventory" where
  "scan_structure tree =
     (let structure = walk [] tree
        \<lparr>inv_files = [], inv_directories = [], inv_file_count = 0, inv_directory_count = 0,
         inv_project_types = []\<rparr>
      in structure\<lparr>inv_project_types :=
           detect_project_types (inv_files structure) (inv_directories structure)\<rparr>)"

text \<open>
  Reading a stored path back: its components are the pieces between slashes. File
  system names hold no slash; \<open>names_ok\<close> says so of a whole tree.
\<close>

fun split_slash :: "string \<Rightarrow> string list" where
  "split_slash [] = [[]]"
| "split_slash (c # cs) =
     (if c = CHR ''/'' then [] # split_slash cs
      else (case split_slash cs of [] \<Rightarrow> [[c]] | w # ws \<Rightarrow> (c # w) # ws))"

fun names_ok :: "fs_entry list \<Rightarrow> bool" where
  "names_ok [] = True"
| "names_ok (File n # es) = (CHR ''/'' \<notin> set n \<and> names_ok es)"
| "names_ok (Dir d sub # es) = (CHR ''/'' \<notin> set d \<and> names_ok sub \<and> names_ok es)"

text \<open>
  The invariant of the walk: the counters are the lengths of the lists, and every
  component of every stored path is a name on which \<^verbatim>\<open>_should_skip\<close> is false.
\<close>

definition clean_name :: "string \<Rightarrow> bool" where
  "clean_name c = (CHR ''/'' \<notin> set c \<and> \<not> should_skip c)"

definition clean_path :: "string \<Rightarrow> bool" where
  "clean_path p = (\<forall>c \<in> set (split_slash p). \<not> should_skip c)"

definition inventory_ok :: "inventory \<Rightarrow> bool" where
  "inventory_ok st =
     (inv_file_count st = int (length (inv_files st)) \<and>
      inv_directory_count st = int (length (inv_directories st)) \<and>
      (\<forall>p \<in> set (inv_files st) \<union> set (inv_directories st). clean_path p))"

section \<open>Health score (generate-report.py and memory_integration.py)\<close>

text \<open>
  The status icons are kept as their UTF-8 bytes; the scripts only concatenate them.
\<close>

definition icon_ok :: string where
  "icon_ok = [CHR 0xE2, CHR 0x9C, CHR 0x85]"

definition icon_warning :: string where
  "icon_warning = [CHR 0xE2, CHR 0x9A, CHR 0xA0, CHR 0xEF, CHR 0xB8, CHR 0x8F]"

definition icon_error :: string where
  "icon_error = [CHR 0xE2, CHR 0x9D, CHR 0x8C]"

definition icon_info :: string where
  "icon_info = [CHR 0xE2, CHR 0x84, CHR 0xB9, CHR 0xEF, CHR 0xB8, CHR 0x8F]"

definition icon_rocket :: string where
  "icon_rocket = [CHR 0xF0, CHR 0x9F, CHR 0x9A, CHR 0x80]"

text \<open>
  Binary floating point. The value of a finite double is a rational number, and an
  arithmetic operation returns its exact result rounded to the nearest double, a tie going
  to the even significand (53 bits). \<open>round_double\<close> is this rounding for the normal
  range: it rounds to a multiple of \<open>2 ^ (e - 52)\<close>, where \<open>2 ^ e\<close> is the largest
  power of two not above the magnitude. It is exact for the computations below when the
  counters are of magnitude below \<open>2 ^ 53\<close>: then no conversion of an integer rounds and
  no result overflows or is subnormal.
\<close>

definition round_half_even :: "rat \<Rightarrow> int" where
  "round_half_even x =
     (let f = \<lfloor>x\<rfloor>; r = x - of_int f
      in if r < 1 / 2 then f else if 1 / 2 < r then f + 1 else if even f then f else f + 1)"

function ilog2 :: "int \<Rightarrow> int" where
  "ilog2 n = (if n < 2 then 0 else 1 + ilog2 (n div 2))"
  by pat_completeness auto
termination
  by (relation "measure nat") auto

declare ilog2.simps [simp del]

definition pow2 :: "int \<Rightarrow> rat" where
  "pow2 e = (if 0 \<le> e then 2 ^ nat e else 1 / 2 ^ nat (- e))"

text \<open>The exponent \<open>e\<close> with \<open>2 ^ e \<le> a < 2 ^ (e + 1)\<close>, for a positive \<open>a\<close>.\<close>

definition binary_exponent :: "rat \<Rightarrow> int" where
  "binary_exponent a =
     (let (p, q) = quotient_of a;
          d = ilog2 p - ilog2 q
      in if pow2 d \<le> a then d else d - 1)"

definition round_double :: "rat \<Rightarrow> rat" where
  "round_double x =
     (if x = 0 then 0
      else
        (let a = \<bar>x\<bar>; quantum = pow2 (binary_exponent a - 52)
         in sgn x * of_int (round_half_even (a / quantum)) * quantum))"

text \<open>
  \<^verbatim>\<open>float(n)\<close> of an integer, the true division of two integers (correctly rounded
  from the exact quotient), and the product and difference of two floats.
\<close>

definition to_float :: "int \<Rightarrow> rat" where
  "to_float n = round_double (of_int n)"

definition int_true_div :: "int \<Rightarrow> int \<Rightarrow> rat" where
  "int_true_div a b = round_double (of_int a / of_int b)"

definition float_mul :: "rat \<Rightarrow> rat \<Rightarrow> rat" where
  "float_mul x y = round_double (x * y)"

definition float_sub :: "rat \<Rightarrow> rat \<Rightarrow> rat" where
  "float_sub x y = round_double (x - y)"

text \<open>
  \<^verbatim>\<open>_generate_health_score\<close> and \<^verbatim>\<open>_calculate_health_score\<close> compute
  \<^verbatim>\<open>health_score\<close> by the same five lines, on the summary of the results. Every
  Summary holds the four counters, so the defaults of \<^verbatim>\<open>.get\<close> are not read. The
  division is Python's true division, which raises ZeroDivisionError on a zero divisor;
  the two penalties of the severities are integer products; an integer operand of a float
  operation is converted first; the subtractions associate to the left.
\<close>

definition weighted_health_score :: "summary \<Rightarrow> py_error + rat" where
  "weighted_health_score sm =
     (if total_patterns sm = 0 then Inl ZeroDivisionError
      else
        (let issues_penalty =
               float_mul (int_true_div (issues_found sm) (total_patterns sm)) (to_float 100);
             high_penalty = high_severity sm * 20;
             medium_penalty = medium_severity sm * 10
         in Inr (max 0
                  (float_sub
                     (float_sub (float_sub (to_float 100) issues_penalty)
                        (to_float high_penalty))
                     (to_float medium_penalty)))))"

text \<open>The counters for which the floating-point model above is exact.\<close>

definition double_counters :: "summary \<Rightarrow> bool" where
  "double_counters sm =
     (0 \<le> total_patterns sm \<and> total_patterns sm < 2 ^ 53 \<and>
      0 \<le> issues_found sm \<and> issues_found sm < 2 ^ 53 \<and>
      0 \<le> high_severity sm \<and> high_severity sm < 2 ^ 53 \<and>
      0 \<le> medium_severity sm \<and> medium_severity sm < 2 ^ 53)"

text \<open>\<^verbatim>\<open>int(x)\<close> truncates towards zero.\<close>

definition py_int :: "rat \<Rightarrow> int" where
  "py_int x = (if 0 \<le> x then \<lfloor>x\<rfloor> else \<lceil>x\<rceil>)"

definition calculate_health_score :: "summary \<Rightarrow> py_error + int" where
  "calculate_health_score sm =
     (case weighted_health_score sm of
        Inl e \<Rightarrow> Inl e
      | Inr health_score \<Rightarrow> Inr (py_int health_score))"

text \<open>
  \<^verbatim>\<open>{health_score:.0f}\<close> prints the integer nearest to the value of the float, a tie
  going to the even one. The value printed here is never negative.
\<close>

fun str_nat :: "nat \<Rightarrow> string" where
  "str_nat n =
     (if n < 10 then [char_of (48 + n)] else str_nat (n div 10) @ [char_of (48 + n mod 10)])"

declare str_nat.simps [simp del]

definition format_0f :: "rat \<Rightarrow> string" where
  "format_0f x = str_nat (nat (round_half_even x))"

definition generate_health_score :: "summary \<Rightarrow> py_error + string" where
  "generate_health_score sm =
     (case weighted_health_score sm of
        Inl e \<Rightarrow> Inl e
      | Inr health_score \<Rightarrow>
          (let (rating, icon) =
                 (if 90 \<le> health_score then (''Excellent'', icon_rocket)
                  else if 75 \<le> health_score then (''Good'', icon_ok)
                  else if 50 \<le> health_score then (''Fair'', icon_warning)
                  else (''Needs Improvement'', icon_error))
           in Inr (icon @ '' Project Health: '' @ format_0f health_score @ ''/100 ('' @ rating
                   @ '')'')))"

text \<open>Reading a printed decimal number back.\<close>

definition read_nat :: "string \<Rightarrow> nat" where
  "read_nat s = foldl (\<lambda>a c. 10 * a + ((of_char c :: nat) - 48)) 0 s"

section \<open>ReportGenerator: the status by category\<close>

definition get_category :: "string \<Rightarrow> string" where
  "get_category detection_id =
     (if sublist ''gitignore'' detection_id \<or> sublist ''git-'' detection_id
        then ''Git Configuration''
      else if sublist ''readme'' detection_id \<or> sublist ''contributing'' detection_id
          \<or> sublist ''license'' detection_id
        then ''Documentation''
      else if sublist ''ci'' detection_id \<or> sublist ''workflow'' detection_id
          \<or> sublist ''docker'' detection_id
        then ''CI/CD''
      else if sublist ''eslint'' detection_id \<or> sublist ''prettier'' detection_id
        then ''Code Quality''
      else if sublist ''editorconfig'' detection_id then ''Setup''
      else ''Other'')"

definition descriptions :: "(string \<times> string) list" where
  "descriptions =
     [(''missing-gitignore'', ''Missing .gitignore''),
      (''missing-ci-workflow'', ''No CI/CD configuration''),
      (''missing-git-hooks'', ''Missing Git hooks''),
      (''missing-readme'', ''Missing README.md''),
      (''readme-minimal'', ''README.md is minimal''),
      (''missing-contributing'', ''Missing CONTRIBUTING.md''),
      (''missing-license'', ''Missing LICENSE''),
      (''missing-build-workflow'', ''Missing build workflow''),
      (''missing-release-workflow'', ''Missing release workflow''),
      (''missing-dockerfile'', ''Missing Dockerfile''),
      (''missing-eslint'', ''Missing ESLint configuration''),
      (''missing-prettier'', ''Missing Prettier configuration''),
      (''missing-editorconfig'', ''Missing .editorconfig'')]"

text \<open>
  \<^verbatim>\<open>str.title()\<close> is a builtin that cases a string by the Unicode tables. The
  functions that reach it take it as the argument \<open>title\<close>, so that what is proved of
  them holds of the builtin, whatever it returns. The default argument of
  \<^verbatim>\<open>descriptions.get\<close> is the id with hyphens replaced by spaces, then titled.
\<close>

definition get_description :: "(string \<Rightarrow> string) \<Rightarrow> string \<Rightarrow> string" where
  "get_description title detection_id =
     dict_get descriptions detection_id
       (title (map (\<lambda>c. if c = CHR ''-'' then CHR '' '' else c) detection_id))"

text \<open>
  \<^verbatim>\<open>_format_issue\<close>. The arrow of the second line is U+2192; the lines are joined by
  line feeds. An id that is \<^verbatim>\<open>None\<close> fails in the default argument of
  \<^verbatim>\<open>descriptions.get\<close> (\<^verbatim>\<open>None.replace\<close>).
\<close>

definition format_issue :: "(string \<Rightarrow> string) \<Rightarrow> detection \<Rightarrow> py_error + string" where
  "format_issue title d =
     (let confidence = d_confidence d; severity = d_severity d;
          icon = (if severity = ''high'' then icon_error
                  else if severity = ''medium'' then icon_warning else icon_info)
      in case d_id d of
           None \<Rightarrow> Inl AttributeError
         | Some detection_id \<Rightarrow>
             (let description = get_description title detection_id;
                  head = icon @ '' '' @ description @ '' (confidence: '' @ confidence
                         @ '', severity: '' @ severity @ '')''
              in case d_recommendation d of
                   None \<Rightarrow> Inr head
                 | Some rc \<Rightarrow>
                     (case rc_template rc of
                        None \<Rightarrow> Inl KeyError
                      | Some template \<Rightarrow>
                          (case rc_reason rc of
                             None \<Rightarrow> Inl KeyError
                           | Some reason \<Rightarrow>
                               Inr (head @ [CHR 0x0A] @ ''     ''
                                    @ [CHR 0xE2, CHR 0x86, CHR 0x92] @ '' /apply-template ''
                                    @ template @ [CHR 0x0A] @ ''     Reason: '' @ reason)))))"

text \<open>
  \<^verbatim>\<open>_generate_category_status\<close>. The dictionary \<^verbatim>\<open>categories\<close> has five keys, in this
  order; a detection is appended to the list of its category only
  \<^verbatim>\<open>if category in categories\<close>. With an id that is \<^verbatim>\<open>None\<close> the substring test of
  \<^verbatim>\<open>_get_category\<close> raises TypeError.
\<close>

definition CATEGORIES :: "string list" where
  "CATEGORIES = [''Git Configuration'', ''Documentation'', ''CI/CD'', ''Code Quality'', ''Setup'']"

fun group_detections ::
    "detection list \<Rightarrow> (string \<times> detection list) list \<Rightarrow>
     py_error + (string \<times> detection list) list" where
  "group_detections [] categories = Inr categories"
| "group_detections (detection # rest) categories =
     (case d_id detection of
        None \<Rightarrow> Inl TypeError
      | Some detection_id \<Rightarrow>
          (let category = get_category detection_id
           in group_detections rest
                (if category \<in> set (map fst categories)
                 then map (\<lambda>(c, ds). if c = category then (c, ds @ [detection]) else (c, ds))
                        categories
                 else categories)))"

definition status_icon :: "detection list \<Rightarrow> string" where
  "status_icon dets =
     (let issues = filter d_issue_found dets;
          has_high_severity = list_ex (\<lambda>d. d_severity d = ''high'') issues
      in if issues = [] then icon_ok
         else if has_high_severity then icon_error
         else icon_warning)"

fun issue_lines :: "(string \<Rightarrow> string) \<Rightarrow> detection list \<Rightarrow> py_error + string list" where
  "issue_lines title [] = Inr []"
| "issue_lines title (detection # rest) =
     (if d_issue_found detection then
        (case format_issue title detection of
           Inl e \<Rightarrow> Inl e
         | Inr issue_line \<Rightarrow>
             (case issue_lines title rest of
                Inl e \<Rightarrow> Inl e
              | Inr ls \<Rightarrow> Inr ((''  '' @ issue_line) # ls)))
      else issue_lines title rest)"

fun category_lines ::
    "(string \<Rightarrow> string) \<Rightarrow> (string \<times> detection list) list \<Rightarrow> py_error + string list" where
  "category_lines title [] = Inr []"
| "category_lines title ((category, dets) # rest) =
     (if dets = [] then category_lines title rest
      else case issue_lines title dets of
             Inl e \<Rightarrow> Inl e
           | Inr ils \<Rightarrow>
               (case category_lines title rest of
                  Inl e \<Rightarrow> Inl e
                | Inr ls \<Rightarrow> Inr ((category @ '': '' @ status_icon dets) # ils @ ls)))"

definition category_status_lines ::
    "(string \<Rightarrow> string) \<Rightarrow> detection list \<Rightarrow> py_error + string list" where
  "category_status_lines title dets =
     (case group_detections dets (map (\<lambda>c. (c, [])) CATEGORIES) of
        Inl e \<Rightarrow> Inl e
      | Inr categories \<Rightarrow> category_lines title categories)"

fun join_lines :: "string list \<Rightarrow> string" where
  "join_lines [] = []"
| "join_lines [l] = l"
| "join_lines (l # ls) = l @ [CHR 0x0A] @ join_lines ls"

definition generate_category_status ::
    "(string \<Rightarrow> string) \<Rightarrow> detection list \<Rightarrow> py_error + string" where
  "generate_category_status title dets =
     (case category_status_lines title dets of
        Inl e \<Rightarrow> Inl e
      | Inr lines \<Rightarrow> Inr (join_lines lines))"

text \<open>
  The section as the specification words it: the category of a detection, when it has
  an id, and the block of one category, which is empty when the category has no
  detection and is otherwise the line of the category followed by the issues of the
  category, in the order of the detections.
\<close>

definition detection_category :: "detection \<Rightarrow> string option" where
  "detection_category d = map_option get_category (d_id d)"

definition issue_text :: "(string \<Rightarrow> string) \<Rightarrow> detection \<Rightarrow> string" where
  "issue_text title d = (case format_issue title d of Inr s \<Rightarrow> s | Inl e \<Rightarrow> [])"

definition category_block ::
    "(string \<Rightarrow> string) \<Rightarrow> detection list \<Rightarrow> string \<Rightarrow> string list" where
  "category_block title dets category =
     (let members = filter (\<lambda>x. detection_category x = Some category) dets
      in if members = [] then []
         else (category @ '': '' @ status_icon members)
              # map (\<lambda>d. ''  '' @ issue_text title d) (filter d_issue_found members))"

text \<open>
  \<^verbatim>\<open>str.title()\<close> on ASCII text, for the examples, whose ids are ASCII: a letter that
  follows a letter is lowered, any other letter is raised.
\<close>

definition is_lower :: "char \<Rightarrow> bool" where
  "is_lower c = (97 \<le> (of_char c :: nat) \<and> (of_char c :: nat) \<le> 122)"

definition is_upper :: "char \<Rightarrow> bool" where
  "is_upper c = (65 \<le> (of_char c :: nat) \<and> (of_char c :: nat) \<le> 90)"

definition to_upper :: "char \<Rightarrow> char" where
  "to_upper c = (if is_lower c then char_of ((of_char c :: nat) - 32) else c)"

definition to_lower :: "char \<Rightarrow> char" where
  "to_lower c = (if is_upper c then char_of ((of_char c :: nat) + 32) else c)"

fun title_from :: "bool \<Rightarrow> string \<Rightarrow> string" where
  "title_from previous_is_cased [] = []"
| "title_from previous_is_cased (c # cs) =
     (if is_lower c \<or> is_upper c then
        (if previous_is_cased then to_lower c else to_upper c) # title_from True cs
      else c # title_from False cs)"

definition ascii_title :: "string \<Rightarrow> string" where
  "ascii_title s = title_from False s"

section \<open>Example inputs\<close>

definition example_structure :: project_structure where
  "example_structure =
     \<lparr>ps_project_name = Some ''demo'', ps_project_types = [''python''], ps_frameworks = [],
      ps_files = [''setup.py'', ''src/main.py''], ps_directories = [''src'']\<rparr>"

definition example_rule :: "string \<Rightarrow> string \<Rightarrow> string option \<Rightarrow> string \<Rightarrow> pattern" where
  "example_rule i c aw sv =
     \<lparr>p_id = Some i, p_type = Some ''file_absence'', p_check = Some (CheckStr c),
      p_applies_when = aw, p_confidence = Some ''high'', p_severity = Some sv,
      p_recommendation =
        Some \<lparr>rc_template = Some i, rc_reason = Some ''absent'', rc_variants = None\<rparr>\<rparr>"

definition unknown_type_rule :: pattern where
  "unknown_type_rule =
     \<lparr>p_id = Some ''custom-check'', p_type = Some ''content_check'', p_check = None,
      p_applies_when = None, p_confidence = None, p_severity = None, p_recommendation = None\<rparr>"

definition example_patterns :: "pattern list" where
  "example_patterns =
     [example_rule ''missing-gitignore'' ''.gitignore'' None ''medium'',
      example_rule ''missing-eslint'' ''.eslintrc'' (Some ''package.json exists'') ''high'',
      example_rule ''missing-readme'' ''README.md'' None ''high'',
      example_rule ''missing-license'' ''LICENSE'' None ''medium'',
      unknown_type_rule]"

definition example_detection :: "string \<Rightarrow> string \<Rightarrow> detection" where
  "example_detection i sv =
     \<lparr>d_id = Some i, d_type = Some ''file_absence'', d_confidence = ''high'', d_severity = sv,
      d_issue_found = True,
      d_recommendation =
        Some \<lparr>rc_template = Some i, rc_reason = Some ''absent'', rc_variants = None\<rparr>\<rparr>"

definition example_recommendation :: "string \<Rightarrow> string \<Rightarrow> rat \<Rightarrow> recommendation" where
  "example_recommendation i sv score =
     \<lparr>r_id = Some i, r_template = i, r_reason = ''absent'', r_severity = sv,
      r_confidence = ''high'', r_priority_score = score\<rparr>"

definition example_results :: results where
  "example_results =
     \<lparr>res_project_name = ''demo'', res_project_types = [''python''], res_frameworks = [],
      detections =
        [example_detection ''missing-gitignore'' ''medium'',
         example_detection ''missing-readme'' ''high'',
         example_detection ''missing-license'' ''medium'',
         \<lparr>d_id = Some ''custom-check'', d_type = Some ''content_check'',
          d_confidence = ''medium'', d_severity = ''medium'', d_issue_found = False,
          d_recommendation = None\<rparr>],
      recommendations =
        [example_recommendation ''missing-readme'' ''high'' 10,
         example_recommendation ''missing-gitignore'' ''medium'' 3,
         example_recommendation ''missing-license'' ''medium'' 3],
      summary = \<lparr>total_patterns = 5, issues_found = 3, high_severity = 1,
                 medium_severity = 2, low_severity = 0\<rparr>\<rparr>"

definition example_tree :: "fs_entry list" where
  "example_tree =
     [Dir ''src''
        [File ''main.py'', Dir ''build'' [File ''x.txt''], File ''a.pyc'',
         Dir ''pkg'' [File ''m.py'']],
      File ''setup.py'',
      Dir ''node_modules'' [File ''package.json''],
      File ''README.md'']"

definition example_other_issue :: detection where
  "example_other_issue =
     \<lparr>d_id = Some ''missing-tests'', d_type = Some ''directory_absence'',
      d_confidence = ''high'', d_severity = ''high'', d_issue_found = True,
      d_recommendation = None\<rparr>"

definition example_setup_issue :: detection where
  "example_setup_issue =
     \<lparr>d_id = Some ''missing-editorconfig'', d_type = Some ''file_absence'',
      d_confidence = ''high'', d_severity = ''high'', d_issue_found = True,
      d_recommendation = None\<rparr>"

definition example_passing :: detection where
  "example_passing =
     \<lparr>d_id = Some ''missing-readme'', d_type = Some ''file_absence'',
      d_confidence = ''high'', d_severity = ''high'', d_issue_found = False,
      d_recommendation = None\<rparr>"

definition example_detections :: "detection list" where
  "example_detections =
     [example_setup_issue, example_other_issue,
      example_detection ''missing-gitignore'' ''medium'', example_passing]"

definition example_lines :: "string list" where
  "example_lines =
     [''Git Configuration: '' @ icon_warning,
      ''  '' @ icon_warning @ '' Missing .gitignore (confidence: high, severity: medium)''
        @ [CHR 0x0A] @ ''     '' @ [CHR 0xE2, CHR 0x86, CHR 0x92]
        @ '' /apply-template missing-gitignore'' @ [CHR 0x0A] @ ''     Reason: absent'',
      ''Documentation: '' @ icon_ok,
      ''Setup: '' @ icon_error,
      ''  '' @ icon_error @ '' Missing .editorconfig (confidence: high, severity: high)'']"

section \<open>Theorems\<close>

text \<open>
  C6. For every pair of confidence and severity strings the priority score computed by
  \<^verbatim>\<open>_calculate_priority\<close> is confidence weight times severity multiplier times severity
  base, with the tables high/medium/low = 1.0/0.7/0.4 (other 0.7), 10/5/2 (other 5) and
  1.0/0.6/0.3 (other 0.6).
\<close>

theorem calculate_priority_tables:
  "calculate_priority d =
     spec_confidence_weight (d_confidence d) * spec_severity_multiplier (d_severity d)
       * spec_severity_base (d_severity d)"
  by (simp add: calculate_priority_def dict_get_def confidence_map_def severity_map_def
      multiplier_map_def spec_confidence_weight_def spec_severity_base_def
      spec_severity_multiplier_def)

subsection \<open>The detection loop\<close>

lemma detect_loop_total:
  "detect_loop fs ds ps pats res = Inr res' \<Longrightarrow>
     total_patterns (summary res') = total_patterns (summary res)"
proof (induction pats arbitrary: res)
  case Nil
  then show ?case by simp
next
  case (Cons pat pats)
  from Cons.prems obtain r1 where s: "detect_step fs ds ps res pat = Inr r1"
    and l: "detect_loop fs ds ps pats r1 = Inr res'"
    by (auto split: sum.splits)
  from s have "total_patterns (summary r1) = total_patterns (summary res)"
    by (auto simp: detect_step_def Let_def count_issue_def
        split: sum.splits option.splits if_splits)
  with Cons.IH[OF l] show ?case by simp
qed

lemma detect_step_detections:
  "detect_step fs ds ps res pat = Inr r1 \<Longrightarrow>
     (not_applicable pat fs \<and> detections r1 = detections res) \<or>
     (\<not> not_applicable pat fs \<and>
      (\<exists>d. apply_pattern pat fs ds ps = Inr (Some d) \<and> detections r1 = detections res @ [d]))"
  by (auto simp: detect_step_def Let_def apply_pattern_def
      split: sum.splits option.splits if_splits)

lemma detect_loop_detections:
  "detect_loop fs ds ps pats res = Inr res' \<Longrightarrow>
     \<exists>dl. detections res' = detections res @ dl \<and>
       list_all2 (\<lambda>d p. apply_pattern p fs ds ps = Inr (Some d)) dl
         (filter (\<lambda>p. \<not> not_applicable p fs) pats)"
proof (induction pats arbitrary: res)
  case Nil
  then show ?case by simp
next
  case (Cons pat pats)
  from Cons.prems obtain r1 where s: "detect_step fs ds ps res pat = Inr r1"
    and l: "detect_loop fs ds ps pats r1 = Inr res'"
    by (auto split: sum.splits)
  from Cons.IH[OF l] obtain dl where dl: "detections res' = detections r1 @ dl"
    "list_all2 (\<lambda>d p. apply_pattern p fs ds ps = Inr (Some d)) dl
       (filter (\<lambda>p. \<not> not_applicable p fs) pats)"
    by blast
  from detect_step_detections[OF s] show ?case
  proof
    assume "not_applicable pat fs \<and> detections r1 = detections res"
    with dl show ?thesis by auto
  next
    assume "\<not> not_applicable pat fs \<and>
      (\<exists>d. apply_pattern pat fs ds ps = Inr (Some d) \<and> detections r1 = detections res @ [d])"
    then obtain d where "\<not> not_applicable pat fs" "apply_pattern pat fs ds ps = Inr (Some d)"
      "detections r1 = detections res @ [d]"
      by blast
    with dl show ?thesis by (intro exI[of _ "d # dl"]) auto
  qed
qed

lemma detect_unfold:
  assumes "detect pats ps = Inr res"
  obtains r0 where
    "detect_loop (ps_files ps) (ps_directories ps) ps pats (initial_results pats ps) = Inr r0"
    and "res = r0\<lparr>recommendations := sort_by_priority (recommendations r0)\<rparr>"
  using assms by (auto simp: detect_def split: sum.splits)

lemma detect_total_patterns:
  assumes "detect pats ps = Inr res"
  shows "total_patterns (summary res) = int (length pats)"
proof -
  from assms obtain r0 where
    l: "detect_loop (ps_files ps) (ps_directories ps) ps pats (initial_results pats ps) = Inr r0"
    and r: "res = r0\<lparr>recommendations := sort_by_priority (recommendations r0)\<rparr>"
    by (rule detect_unfold)
  from detect_loop_total[OF l] r show ?thesis
    by (simp add: initial_results_def)
qed

lemma detect_detections:
  assumes "detect pats ps = Inr res"
  shows "list_all2 (\<lambda>d p. apply_pattern p (ps_files ps) (ps_directories ps) ps = Inr (Some d))
           (detections res) (filter (\<lambda>p. \<not> not_applicable p (ps_files ps)) pats)"
proof -
  from assms obtain r0 where
    l: "detect_loop (ps_files ps) (ps_directories ps) ps pats (initial_results pats ps) = Inr r0"
    and r: "res = r0\<lparr>recommendations := sort_by_priority (recommendations r0)\<rparr>"
    by (rule detect_unfold)
  from detect_loop_detections[OF l] r show ?thesis
    by (auto simp: initial_results_def)
qed

lemma example_detect:
  "detect example_patterns example_structure = Inr example_results"
  by code_simp

text \<open>
  C5. When the evaluation returns, the detections are, in order, the detections of the
  rules whose \<^verbatim>\<open>applies_when\<close> condition did not evaluate to false: a rule whose
  condition is false is applied to \<open>None\<close> and has no element in the sequence, and
  \<^verbatim>\<open>total_patterns\<close> is the number of all loaded rules.
\<close>

theorem not_applicable_rule_absent:
  assumes "detect pats ps = Inr res"
  shows "total_patterns (summary res) = int (length pats) \<and>
         list_all2 (\<lambda>d p. apply_pattern p (ps_files ps) (ps_directories ps) ps = Inr (Some d))
           (detections res) (filter (\<lambda>p. \<not> not_applicable p (ps_files ps)) pats) \<and>
         (\<forall>p \<in> set pats. not_applicable p (ps_files ps) \<longrightarrow>
            apply_pattern p (ps_files ps) (ps_directories ps) ps = Inr None)"
  using detect_total_patterns[OF assms] detect_detections[OF assms]
  by (simp add: apply_pattern_def)

theorem not_applicable_rule_absent_witness:
  "detect example_patterns example_structure = Inr example_results \<and>
   total_patterns (summary example_results) = int (length example_patterns) \<and>
   length (detections example_results) = 4 \<and>
   not_applicable (example_patterns ! 1) (ps_files example_structure) \<and>
   apply_pattern (example_patterns ! 1) (ps_files example_structure)
     (ps_directories example_structure) example_structure = Inr None"
proof -
  have h: "detect example_patterns example_structure = Inr example_results"
    by (rule example_detect)
  have n: "not_applicable (example_patterns ! 1) (ps_files example_structure)"
    by code_simp
  have m: "example_patterns ! 1 \<in> set example_patterns"
    by (simp add: example_patterns_def)
  have l: "length (detections example_results) = 4"
    by (simp add: example_results_def)
  from not_applicable_rule_absent[OF h] n m l h show ?thesis
    by blast
qed

lemma detect_step_recommendations:
  "detect_step fs ds ps res pat = Inr r1 \<Longrightarrow>
     recommendations r1 = recommendations res @ pattern_recommendations fs ds ps pat"
  by (auto simp: detect_step_def pattern_recommendations_def Let_def
      split: sum.splits option.splits if_splits)

lemma detect_loop_recommendations:
  "detect_loop fs ds ps pats res = Inr res' \<Longrightarrow>
     recommendations res' =
       recommendations res @ concat (map (pattern_recommendations fs ds ps) pats)"
proof (induction pats arbitrary: res)
  case Nil
  then show ?case by simp
next
  case (Cons pat pats)
  from Cons.prems obtain r1 where s: "detect_step fs ds ps res pat = Inr r1"
    and l: "detect_loop fs ds ps pats r1 = Inr res'"
    by (auto split: sum.splits)
  show ?case
    using Cons.IH[OF l] detect_step_recommendations[OF s] by simp
qed

lemma sort_by_priority_sorted:
  "sorted_wrt (\<lambda>a b. r_priority_score b \<le> r_priority_score a) (sort_by_priority rs)"
proof -
  have "sorted (map (\<lambda>r. - r_priority_score r) (sort_by_priority rs))"
    unfolding sort_by_priority_def by (rule sorted_sort_key)
  then show ?thesis by (simp add: sorted_map)
qed

lemma sort_by_priority_stable:
  "filter (\<lambda>r. r_priority_score r = k) (sort_by_priority rs) =
     filter (\<lambda>r. r_priority_score r = k) rs"
proof -
  have "filter (\<lambda>r. - r_priority_score r = - k) (sort_by_priority rs) =
          filter (\<lambda>r. - r_priority_score r = - k) rs"
    unfolding sort_by_priority_def by (rule sort_key_stable)
  then show ?thesis by simp
qed

text \<open>
  C7. When the evaluation returns, the recommendations are in non-increasing order of
  \<^verbatim>\<open>priority_score\<close>, and for every score the recommendations with that score are
  in the order in which the rules of the configuration produced them.
\<close>

theorem recommendations_sorted_stable:
  assumes "detect pats ps = Inr res"
  shows "sorted_wrt (\<lambda>a b. r_priority_score b \<le> r_priority_score a) (recommendations res) \<and>
         (\<forall>k. filter (\<lambda>r. r_priority_score r = k) (recommendations res) =
                filter (\<lambda>r. r_priority_score r = k)
                  (concat (map (pattern_recommendations (ps_files ps) (ps_directories ps) ps)
                     pats)))"
proof -
  from assms obtain r0 where
    l: "detect_loop (ps_files ps) (ps_directories ps) ps pats (initial_results pats ps) = Inr r0"
    and r: "res = r0\<lparr>recommendations := sort_by_priority (recommendations r0)\<rparr>"
    by (rule detect_unfold)
  have u: "recommendations r0 =
             concat (map (pattern_recommendations (ps_files ps) (ps_directories ps) ps) pats)"
    using detect_loop_recommendations[OF l] by (simp add: initial_results_def)
  have s: "recommendations res = sort_by_priority (recommendations r0)"
    using r by simp
  show ?thesis
    unfolding s u[symmetric] by (simp add: sort_by_priority_sorted sort_by_priority_stable)
qed

theorem recommendations_sorted_stable_witness:
  "detect example_patterns example_structure = Inr example_results \<and>
   map r_id (recommendations example_results) =
     [Some ''missing-readme'', Some ''missing-gitignore'', Some ''missing-license''] \<and>
   map r_priority_score (recommendations example_results) = [10, 3, 3] \<and>
   sorted_wrt (\<lambda>a b. r_priority_score b \<le> r_priority_score a)
     (recommendations example_results) \<and>
   map r_id (filter (\<lambda>r. r_priority_score r = 3)
     (concat (map (pattern_recommendations (ps_files example_structure)
        (ps_directories example_structure) example_structure) example_patterns))) =
     [Some ''missing-gitignore'', Some ''missing-license'']"
proof -
  have h: "detect example_patterns example_structure = Inr example_results"
    by (rule example_detect)
  have i: "map r_id (recommendations example_results) =
     [Some ''missing-readme'', Some ''missing-gitignore'', Some ''missing-license'']"
    by (simp add: example_results_def example_recommendation_def)
  have p: "map r_priority_score (recommendations example_results) = [10, 3, 3]"
    by (simp add: example_results_def example_recommendation_def)
  have f: "map r_id (filter (\<lambda>r. r_priority_score r = 3) (recommendations example_results)) =
     [Some ''missing-gitignore'', Some ''missing-license'']"
    by (simp add: example_results_def example_recommendation_def)
  from recommendations_sorted_stable[OF h] have
    s: "sorted_wrt (\<lambda>a b. r_priority_score b \<le> r_priority_score a)
          (recommendations example_results)"
    and e: "filter (\<lambda>r. r_priority_score r = 3) (recommendations example_results) =
       filter (\<lambda>r. r_priority_score r = 3)
         (concat (map (pattern_recommendations (ps_files example_structure)
            (ps_directories example_structure) example_structure) example_patterns))"
    by blast+
  from h i p s f show ?thesis
    unfolding e by blast
qed

subsection \<open>Rules of an unknown type\<close>

lemma list_all2_right_member:
  "list_all2 P xs ys \<Longrightarrow> y \<in> set ys \<Longrightarrow> \<exists>x \<in> set xs. P x y"
  by (induction rule: list_all2_induct) auto

text \<open>
  C10. A rule whose type is missing or is none of \<^verbatim>\<open>file_absence\<close>,
  \<^verbatim>\<open>directory_absence\<close>, \<^verbatim>\<open>file_quality\<close>, and whose \<^verbatim>\<open>applies_when\<close> did not
  evaluate to false, raises nothing: it is applied to a detection with
  \<^verbatim>\<open>issue_found = False\<close>, no recommendation, and confidence and severity defaulting
  to \<^verbatim>\<open>medium\<close>; the loop step only appends this detection (counters and
  recommendations are untouched), and in every evaluation that returns the detection is
  in the output and the rule is counted in \<^verbatim>\<open>total_patterns\<close>.
\<close>

theorem rule_of_unknown_type_passes:
  assumes "p_type pat \<notin> {Some ''file_absence'', Some ''directory_absence'', Some ''file_quality''}"
    and "\<not> not_applicable pat (ps_files ps)"
  shows "initial_detection pat =
           \<lparr>d_id = p_id pat, d_type = p_type pat,
            d_confidence = (case p_confidence pat of None \<Rightarrow> ''medium'' | Some c \<Rightarrow> c),
            d_severity = (case p_severity pat of None \<Rightarrow> ''medium'' | Some s \<Rightarrow> s),
            d_issue_found = False, d_recommendation = None\<rparr> \<and>
         apply_pattern pat (ps_files ps) (ps_directories ps) ps =
           Inr (Some (initial_detection pat)) \<and>
         detect_step (ps_files ps) (ps_directories ps) ps res pat =
           Inr (res\<lparr>detections := detections res @ [initial_detection pat]\<rparr>) \<and>
         (\<forall>pre post res'. detect (pre @ pat # post) ps = Inr res' \<longrightarrow>
            initial_detection pat \<in> set (detections res') \<and>
            total_patterns (summary res') = int (length pre) + 1 + int (length post))"
proof -
  have a: "apply_pattern pat (ps_files ps) (ps_directories ps) ps =
             Inr (Some (initial_detection pat))"
    using assms
    by (simp add: apply_pattern_def dispatch_check_def initial_detection_def)
  have s: "detect_step (ps_files ps) (ps_directories ps) ps res pat =
             Inr (res\<lparr>detections := detections res @ [initial_detection pat]\<rparr>)"
    by (simp add: detect_step_def a initial_detection_def)
  have d: "initial_detection pat \<in> set (detections res') \<and>
           total_patterns (summary res') = int (length pre) + 1 + int (length post)"
    if h: "detect (pre @ pat # post) ps = Inr res'" for pre post res'
  proof -
    have "pat \<in> set (filter (\<lambda>p. \<not> not_applicable p (ps_files ps)) (pre @ pat # post))"
      using assms(2) by simp
    with detect_detections[OF h] obtain x where "x \<in> set (detections res')"
      and "apply_pattern pat (ps_files ps) (ps_directories ps) ps = Inr (Some x)"
      by (blast dest: list_all2_right_member)
    with a have "initial_detection pat \<in> set (detections res')"
      by simp
    with detect_total_patterns[OF h] show ?thesis
      by simp
  qed
  show ?thesis
    using a s d by (simp add: initial_detection_def)
qed

theorem rule_of_unknown_type_passes_witness:
  "p_type unknown_type_rule \<notin>
     {Some ''file_absence'', Some ''directory_absence'', Some ''file_quality''} \<and>
   \<not> not_applicable unknown_type_rule (ps_files example_structure) \<and>
   detect (take 4 example_patterns @ unknown_type_rule # []) example_structure =
     Inr example_results \<and>
   apply_pattern unknown_type_rule (ps_files example_structure)
     (ps_directories example_structure) example_structure =
     Inr (Some \<lparr>d_id = Some ''custom-check'', d_type = Some ''content_check'',
           d_confidence = ''medium'', d_severity = ''medium'', d_issue_found = False,
           d_recommendation = None\<rparr>) \<and>
   \<lparr>d_id = Some ''custom-check'', d_type = Some ''content_check'',
    d_confidence = ''medium'', d_severity = ''medium'', d_issue_found = False,
    d_recommendation = None\<rparr> \<in> set (detections example_results) \<and>
   total_patterns (summary example_results) = 5"
proof -
  have t: "p_type unknown_type_rule \<notin>
     {Some ''file_absence'', Some ''directory_absence'', Some ''file_quality''}"
    by (simp add: unknown_type_rule_def)
  have n: "\<not> not_applicable unknown_type_rule (ps_files example_structure)"
    by (simp add: unknown_type_rule_def not_applicable_def)
  have e: "take 4 example_patterns @ unknown_type_rule # [] = example_patterns"
    by (simp add: example_patterns_def)
  have h: "detect (take 4 example_patterns @ unknown_type_rule # []) example_structure =
     Inr example_results"
    unfolding e by (rule example_detect)
  have i: "initial_detection unknown_type_rule =
     \<lparr>d_id = Some ''custom-check'', d_type = Some ''content_check'',
      d_confidence = ''medium'', d_severity = ''medium'', d_issue_found = False,
      d_recommendation = None\<rparr>"
    by (simp add: initial_detection_def unknown_type_rule_def)
  have l: "int (length (take 4 example_patterns)) + 1 + int (length ([] :: pattern list)) = 5"
    by (simp add: example_patterns_def)
  from rule_of_unknown_type_passes[OF t n, of example_results] h t n l show ?thesis
    unfolding i by fastforce
qed

subsection \<open>Directory markers\<close>

text \<open>
  C1, evaluated where the code departs from it. With the markers
  \<^verbatim>\<open>['.gitlab-ci.yml', '.github/workflows']\<close> and the directory \<^verbatim>\<open>.github/workflows\<close>
  in the inventory, \<^verbatim>\<open>_check_directory_absence\<close> returns True (an issue) at the first
  marker, although the second marker is present; with the same markers in the other
  order it returns False. With the file \<^verbatim>\<open>.gitlab-ci.yml\<close> as the only marker the result
  is True whatever the inventory holds, since the function is not given the files.
\<close>

theorem directory_absence_yml_marker_returns_early:
  "check_directory_absence (Some (CheckList [''.gitlab-ci.yml'', ''.github/workflows'']))
     [''.github'', ''.github/workflows''] = Inr True \<and>
   check_directory_absence (Some (CheckList [''.github/workflows'', ''.gitlab-ci.yml'']))
     [''.github'', ''.github/workflows''] = Inr False \<and>
   check_directory_absence (Some (CheckStr ''.gitlab-ci.yml'')) ds = Inr True"
  by (simp add: check_directory_absence_def suffix_to_prefix)

subsection \<open>The scan\<close>

lemma split_slash_component:
  "CHR ''/'' \<notin> set c \<Longrightarrow> split_slash (c @ CHR ''/'' # rest) = c # split_slash rest"
  by (induction c) auto

lemma split_slash_single: "CHR ''/'' \<notin> set c \<Longrightarrow> split_slash c = [c]"
  by (induction c) auto

lemma split_slash_path_str:
  "cs \<noteq> [] \<Longrightarrow> \<forall>c \<in> set cs. CHR ''/'' \<notin> set c \<Longrightarrow> split_slash (path_str cs) = cs"
proof (induction cs rule: path_str.induct)
  case 1
  then show ?case by simp
next
  case (2 c)
  then show ?case by (simp add: split_slash_single)
next
  case (3 c v va)
  then show ?case by (simp add: split_slash_component)
qed

lemma clean_path_str:
  assumes "\<forall>c \<in> set rel_root. clean_name c" and "CHR ''/'' \<notin> set n" and "\<not> should_skip n"
  shows "clean_path (path_str (rel_root @ [n]))"
proof -
  have "split_slash (path_str (rel_root @ [n])) = rel_root @ [n]"
    using assms by (intro split_slash_path_str) (auto simp: clean_name_def)
  with assms show ?thesis by (auto simp: clean_path_def clean_name_def)
qed

lemma add_dirs_ok:
  "\<forall>c \<in> set rel_root. clean_name c \<Longrightarrow> \<forall>d \<in> set dirs. clean_name d \<Longrightarrow> inventory_ok st \<Longrightarrow>
     inventory_ok (add_dirs rel_root dirs st)"
proof (induction dirs arbitrary: st)
  case Nil
  then show ?case by simp
next
  case (Cons d dirs)
  have "clean_path (path_str (rel_root @ [d]))"
    using Cons.prems by (intro clean_path_str) (auto simp: clean_name_def)
  with Cons.prems(3) have "inventory_ok
     (st\<lparr>inv_directories := inv_directories st @ [path_str (rel_root @ [d])],
         inv_directory_count := inv_directory_count st + 1\<rparr>)"
    by (auto simp: inventory_ok_def)
  with Cons show ?case by simp
qed

lemma add_files_ok:
  "\<forall>c \<in> set rel_root. clean_name c \<Longrightarrow> \<forall>f \<in> set files. CHR ''/'' \<notin> set f \<Longrightarrow> inventory_ok st \<Longrightarrow>
     inventory_ok (add_files rel_root files st)"
proof (induction files arbitrary: st)
  case Nil
  then show ?case by simp
next
  case (Cons f files)
  show ?case
  proof (cases "should_skip f")
    case True
    with Cons show ?thesis by simp
  next
    case False
    have "clean_path (path_str (rel_root @ [f]))"
      using Cons.prems False by (intro clean_path_str) auto
    with Cons.prems(3) have "inventory_ok
       (st\<lparr>inv_files := inv_files st @ [path_str (rel_root @ [f])],
           inv_file_count := inv_file_count st + 1\<rparr>)"
      by (auto simp: inventory_ok_def)
    with Cons False show ?thesis by simp
  qed
qed

lemma file_names_slash_free: "names_ok es \<Longrightarrow> f \<in> set (file_names es) \<Longrightarrow> CHR ''/'' \<notin> set f"
proof (induction es rule: file_names.induct)
  case 1
  then show ?case by simp
next
  case (2 n es)
  then show ?case by auto
next
  case (3 d sub es)
  then show ?case by simp
qed

lemma kept_dir_names_clean: "names_ok es \<Longrightarrow> d \<in> set (kept_dir_names es) \<Longrightarrow> clean_name d"
proof (induction es rule: kept_dir_names.induct)
  case 1
  then show ?case by simp
next
  case (2 n es)
  then show ?case by simp
next
  case (3 d' sub es)
  then show ?case by (cases "should_skip d'") (auto simp: clean_name_def)
qed

lemma walk_ok:
  "(names_ok entries \<longrightarrow> (\<forall>c \<in> set rel_root. clean_name c) \<longrightarrow> inventory_ok st \<longrightarrow>
      inventory_ok (walk rel_root entries st))"
  "(names_ok entries' \<longrightarrow> (\<forall>c \<in> set rel_root'. clean_name c) \<longrightarrow> inventory_ok st' \<longrightarrow>
      inventory_ok (walk_into rel_root' entries' st'))"
proof (induction rel_root entries st and rel_root' entries' st' rule: walk_walk_into.induct)
  case (1 rel_root entries st)
  show ?case
  proof (intro impI)
    assume n: "names_ok entries" and r: "\<forall>c \<in> set rel_root. clean_name c" and i: "inventory_ok st"
    have "inventory_ok (add_dirs rel_root (kept_dir_names entries) st)"
      using r kept_dir_names_clean[OF n] i by (intro add_dirs_ok) auto
    then have "inventory_ok (add_files rel_root (file_names entries)
          (add_dirs rel_root (kept_dir_names entries) st))"
      using r file_names_slash_free[OF n] by (intro add_files_ok) auto
    with 1 n r show "inventory_ok (walk rel_root entries st)" by simp
  qed
next
  case (2 rel_root st)
  then show ?case by simp
next
  case (3 rel_root n es st)
  then show ?case by simp
next
  case (4 rel_root d sub es st)
  show ?case
  proof (intro impI)
    assume n: "names_ok (Dir d sub # es)" and r: "\<forall>c \<in> set rel_root. clean_name c"
      and i: "inventory_ok st"
    show "inventory_ok (walk_into rel_root (Dir d sub # es) st)"
    proof (cases "should_skip d")
      case True
      with 4(1) n r i show ?thesis by simp
    next
      case False
      with n r have "\<forall>c \<in> set (rel_root @ [d]). clean_name c"
        by (auto simp: clean_name_def)
      with 4(2)[OF False] n i have "inventory_ok (walk (rel_root @ [d]) sub st)" by simp
      with 4(3)[OF False] n r False show ?thesis by simp
    qed
  qed
qed

text \<open>
  C9. For every project tree (whose names hold no slash, as file system names do) the
  scan returns \<^verbatim>\<open>file_count\<close> equal to the length of \<^verbatim>\<open>files\<close> and
  \<^verbatim>\<open>directory_count\<close> equal to the length of \<^verbatim>\<open>directories\<close>; no component of an
  entry of either list is matched by \<^verbatim>\<open>_should_skip\<close>, and so no entry lies under a
  directory whose name is matched: every non-empty prefix of its components ends in a
  name that is not matched.
\<close>

theorem scan_inventory_invariant:
  assumes "names_ok tree"
  shows "inv_file_count (scan_structure tree) = int (length (inv_files (scan_structure tree))) \<and>
         inv_directory_count (scan_structure tree) =
           int (length (inv_directories (scan_structure tree))) \<and>
         (\<forall>p \<in> set (inv_files (scan_structure tree)) \<union> set (inv_directories (scan_structure tree)).
            (\<forall>c \<in> set (split_slash p). \<not> should_skip c) \<and>
            (\<forall>q. q \<noteq> [] \<and> prefix q (split_slash p) \<longrightarrow> \<not> should_skip (last q)))"
proof -
  let ?init = "\<lparr>inv_files = [], inv_directories = [], inv_file_count = 0,
      inv_directory_count = 0, inv_project_types = []\<rparr>"
  have "inventory_ok ?init" by (simp add: inventory_ok_def)
  with walk_ok(1)[of tree "[]" ?init] assms have w: "inventory_ok (walk [] tree ?init)"
    by simp
  have last_in: "last q \<in> set xs" if "q \<noteq> []" "prefix q xs" for q xs :: "string list"
    using that by (metis last_in_set set_mono_prefix subsetD)
  from w show ?thesis
    by (auto simp: scan_structure_def Let_def inventory_ok_def clean_path_def dest: last_in)
qed

theorem scan_inventory_invariant_witness:
  "names_ok example_tree \<and>
   inv_files (scan_structure example_tree) =
     [''setup.py'', ''README.md'', ''src/main.py'', ''src/pkg/m.py''] \<and>
   inv_directories (scan_structure example_tree) = [''src'', ''src/pkg''] \<and>
   inv_file_count (scan_structure example_tree) = 4 \<and>
   inv_directory_count (scan_structure example_tree) = 2 \<and>
   split_slash ''src/pkg/m.py'' = [''src'', ''pkg'', ''m.py''] \<and>
   \<not> should_skip ''src'' \<and> \<not> should_skip ''pkg'' \<and> \<not> should_skip ''m.py''"
proof -
  have n: "names_ok example_tree"
    by (simp add: example_tree_def)
  have f: "inv_files (scan_structure example_tree) =
     [''setup.py'', ''README.md'', ''src/main.py'', ''src/pkg/m.py'']"
    by code_simp
  have d: "inv_directories (scan_structure example_tree) = [''src'', ''src/pkg'']"
    by code_simp
  have s: "split_slash ''src/pkg/m.py'' = [''src'', ''pkg'', ''m.py'']"
    by simp
  from scan_inventory_invariant[OF n] have
    c: "inv_file_count (scan_structure example_tree) =
          int (length (inv_files (scan_structure example_tree)))"
       "inv_directory_count (scan_structure example_tree) =
          int (length (inv_directories (scan_structure example_tree)))"
    and p: "\<forall>p \<in> set (inv_files (scan_structure example_tree)) \<union>
        set (inv_directories (scan_structure example_tree)).
      \<forall>c \<in> set (split_slash p). \<not> should_skip c"
    by blast+
  from c have k: "inv_file_count (scan_structure example_tree) = 4"
    "inv_directory_count (scan_structure example_tree) = 2"
    unfolding f d by simp_all
  from p have "\<forall>c \<in> set (split_slash ''src/pkg/m.py''). \<not> should_skip c"
    unfolding f d by simp
  then have "\<not> should_skip ''src''" "\<not> should_skip ''pkg''" "\<not> should_skip ''m.py''"
    unfolding s by simp_all
  with n f d k s show ?thesis
    by blast
qed

subsection \<open>Project types\<close>

text \<open>
  C8, evaluated where the code departs from it. The indicator \<^verbatim>\<open>package.json\<close>
  neither ends with a slash nor starts with a star, and the inventory holds the single
  file \<^verbatim>\<open>my-package.json\<close>, which is not that file name: the branch commented
  \<^verbatim>\<open>Exact file indicator\<close> still adds the type \<^verbatim>\<open>node\<close>, since the path ends with
  the indicator string. In the same way \<^verbatim>\<open>notgo.mod\<close> adds \<^verbatim>\<open>go\<close>.
\<close>

theorem exact_indicator_matches_longer_name:
  "''package.json'' \<notin> set [''my-package.json''] \<and>
   detect_project_types [''my-package.json''] [] = [''node''] \<and>
   detect_project_types [''notgo.mod''] [] = [''go'']"
  by code_simp

subsection \<open>Health score\<close>

text \<open>
  C2, evaluated where the code departs from it. With \<^verbatim>\<open>total_patterns = 0\<close>, which
  \<^verbatim>\<open>detect\<close> returns for an empty rule list, both health-score functions raise
  ZeroDivisionError whatever the other counters are: \<^verbatim>\<open>issues_penalty\<close> is not taken
  as 0.
\<close>

theorem health_score_zero_patterns_raises:
  "generate_health_score
     \<lparr>total_patterns = 0, issues_found = i, high_severity = h, medium_severity = m,
      low_severity = l\<rparr> = Inl ZeroDivisionError \<and>
   calculate_health_score
     \<lparr>total_patterns = 0, issues_found = i, high_severity = h, medium_severity = m,
      low_severity = l\<rparr> = Inl ZeroDivisionError \<and>
   (\<exists>res. detect [] ps = Inr res \<and> total_patterns (summary res) = 0)"
  by (simp add: generate_health_score_def calculate_health_score_def
      weighted_health_score_def detect_def initial_results_def)

text \<open>
  The two integers differ. For the summary with three patterns and one issue the float
  is 66.66666666666667: the report prints it with \<^verbatim>\<open>:.0f\<close> as 67 and the function
  used for persistence truncates it with \<^verbatim>\<open>int\<close> to 66. For twenty patterns and
  eleven issues the float is 44.99999999999999, printed as 45 and stored as 44.
\<close>

theorem report_and_stored_health_score_differ:
  "generate_health_score
     \<lparr>total_patterns = 3, issues_found = 1, high_severity = 0, medium_severity = 0,
      low_severity = 1\<rparr> = Inr (icon_warning @ '' Project Health: 67/100 (Fair)'') \<and>
   calculate_health_score
     \<lparr>total_patterns = 3, issues_found = 1, high_severity = 0, medium_severity = 0,
      low_severity = 1\<rparr> = Inr 66 \<and>
   generate_health_score
     \<lparr>total_patterns = 20, issues_found = 11, high_severity = 0, medium_severity = 0,
      low_severity = 11\<rparr> = Inr (icon_error @ '' Project Health: 45/100 (Needs Improvement)'') \<and>
   calculate_health_score
     \<lparr>total_patterns = 20, issues_found = 11, high_severity = 0, medium_severity = 0,
      low_severity = 11\<rparr> = Inr 44"
  by code_simp

lemma read_nat_snoc:
  "read_nat (s @ [c]) = 10 * read_nat s + ((of_char c :: nat) - 48)"
  by (simp add: read_nat_def)

lemma read_nat_str_nat: "read_nat (str_nat n) = n"
proof (induction n rule: str_nat.induct)
  case (1 n)
  show ?case
  proof (cases "n < 10")
    case True
    then show ?thesis
      by (subst str_nat.simps) (simp add: read_nat_def)
  next
    case False
    have "n mod 10 < 10" by simp
    then have d: "(of_char (char_of (48 + n mod 10)) :: nat) - 48 = n mod 10"
      by simp
    have "read_nat (str_nat n) = read_nat (str_nat (n div 10) @ [char_of (48 + n mod 10)])"
      using False by (subst str_nat.simps) simp
    also have "\<dots> = 10 * (n div 10) + n mod 10"
      using 1[OF False] d by (simp only: read_nat_snoc)
    finally show ?thesis by simp
  qed
qed

lemma round_half_even_floor:
  "round_half_even x = \<lfloor>x\<rfloor> \<or> round_half_even x = \<lfloor>x\<rfloor> + 1"
  by (simp add: round_half_even_def Let_def)

lemma round_half_even_of_int: "x \<in> \<int> \<Longrightarrow> round_half_even x = \<lfloor>x\<rfloor>"
  by (auto simp: round_half_even_def Let_def elim!: Ints_cases)

lemma generate_health_score_form:
  assumes "weighted_health_score sm = Inr h"
  shows "\<exists>icon rating. generate_health_score sm =
           Inr (icon @ '' Project Health: '' @ format_0f h @ ''/100 ('' @ rating @ '')'')"
proof -
  obtain rating icon where
    "(if 90 \<le> h then (''Excellent'', icon_rocket)
      else if 75 \<le> h then (''Good'', icon_ok)
      else if 50 \<le> h then (''Fair'', icon_warning)
      else (''Needs Improvement'', icon_error)) = (rating, icon)"
    by (metis surj_pair)
  with assms have "generate_health_score sm =
           Inr (icon @ '' Project Health: '' @ format_0f h @ ''/100 ('' @ rating @ '')'')"
    by (simp add: generate_health_score_def Let_def del: append_assoc)
  then show ?thesis by blast
qed

text \<open>
  C3, as the code has it. For a summary with \<^verbatim>\<open>total_patterns\<close> not zero (and
  counters in the range where the floating-point model is exact) both functions return.
  With \<open>h\<close> the float that both compute, the number printed on the health-score line of
  the report is \<open>h\<close> rounded to the nearest integer (a tie to the even one), and the
  integer computed for persistence is \<open>h\<close> truncated: the printed number is the stored
  one or one more, and the two agree when the float \<open>h\<close> is a whole number.
\<close>

theorem report_rounds_store_truncates:
  assumes "total_patterns sm \<noteq> 0" and "double_counters sm"
  shows "\<exists>h icon digits rating.
           weighted_health_score sm = Inr h \<and> 0 \<le> h \<and>
           generate_health_score sm =
             Inr (icon @ '' Project Health: '' @ digits @ ''/100 ('' @ rating @ '')'') \<and>
           int (read_nat digits) = round_half_even h \<and>
           calculate_health_score sm = Inr \<lfloor>h\<rfloor> \<and>
           (round_half_even h = \<lfloor>h\<rfloor> \<or> round_half_even h = \<lfloor>h\<rfloor> + 1) \<and>
           (h \<in> \<int> \<longrightarrow> round_half_even h = \<lfloor>h\<rfloor>)"
proof -
  from assms(1) obtain h where w: "weighted_health_score sm = Inr h" and h: "0 \<le> h"
    by (auto simp: weighted_health_score_def Let_def)
  from generate_health_score_form[OF w] obtain icon rating where
    g: "generate_health_score sm =
          Inr (icon @ '' Project Health: '' @ format_0f h @ ''/100 ('' @ rating @ '')'')"
    by blast
  from h have "0 \<le> \<lfloor>h\<rfloor>" by simp
  with round_half_even_floor[of h] have "0 \<le> round_half_even h" by auto
  then have r: "int (read_nat (format_0f h)) = round_half_even h"
    by (simp add: format_0f_def read_nat_str_nat)
  from w h have c: "calculate_health_score sm = Inr \<lfloor>h\<rfloor>"
    by (simp add: calculate_health_score_def py_int_def)
  from w h g r c round_half_even_floor[of h] round_half_even_of_int[of h] show ?thesis
    by blast
qed

theorem report_rounds_store_truncates_witness:
  "total_patterns \<lparr>total_patterns = 10, issues_found = 1, high_severity = 1,
     medium_severity = 0, low_severity = 0\<rparr> \<noteq> 0 \<and>
   double_counters \<lparr>total_patterns = 10, issues_found = 1, high_severity = 1,
     medium_severity = 0, low_severity = 0\<rparr> \<and>
   weighted_health_score \<lparr>total_patterns = 10, issues_found = 1, high_severity = 1,
     medium_severity = 0, low_severity = 0\<rparr> = Inr 70 \<and>
   (70 :: rat) \<in> \<int> \<and>
   calculate_health_score \<lparr>total_patterns = 10, issues_found = 1, high_severity = 1,
     medium_severity = 0, low_severity = 0\<rparr> = Inr 70 \<and>
   round_half_even 70 = 70"
proof -
  let ?sm = "\<lparr>total_patterns = 10, issues_found = 1, high_severity = 1,
     medium_severity = 0, low_severity = 0\<rparr>"
  have t: "total_patterns ?sm \<noteq> 0" by simp
  have b: "double_counters ?sm" by (simp add: double_counters_def)
  have v: "weighted_health_score ?sm = Inr 70"
    by code_simp
  have z: "(70 :: rat) \<in> \<int>" by simp
  from report_rounds_store_truncates[OF t b] v obtain h where
    "h = 70" and "calculate_health_score ?sm = Inr \<lfloor>h\<rfloor>"
    and "h \<in> \<int> \<longrightarrow> round_half_even h = \<lfloor>h\<rfloor>"
    by auto
  with z have "calculate_health_score ?sm = Inr 70" and "round_half_even 70 = 70"
    by simp_all
  with t b v z show ?thesis
    by blast
qed

subsection \<open>Status by category\<close>

lemma group_update_absent:
  "category \<notin> set (map fst cats) \<Longrightarrow>
     map (\<lambda>(c, ds). if c = category then (c, ds @ [d]) else (c, ds)) cats = cats"
  by (induction cats) auto

lemma group_detections_ids:
  "group_detections ds cats = Inr r \<Longrightarrow> d \<in> set ds \<Longrightarrow> \<exists>i. d_id d = Some i"
proof (induction ds arbitrary: cats)
  case Nil
  then show ?case by simp
next
  case (Cons x ds)
  from Cons.prems(1) obtain i cats' where i: "d_id x = Some i"
    and r: "group_detections ds cats' = Inr r"
    by (auto simp: Let_def split: option.splits)
  show ?case
  proof (cases "d = x")
    case True
    with i show ?thesis by simp
  next
    case False
    with Cons.prems(2) have "d \<in> set ds" by simp
    from Cons.IH[OF r this] show ?thesis .
  qed
qed

lemma group_detections_filter:
  "\<forall>d \<in> set ds. d_id d \<noteq> None \<Longrightarrow>
     group_detections ds cats =
       Inr (map (\<lambda>(c, g). (c, g @ filter (\<lambda>x. detection_category x = Some c) ds)) cats)"
proof (induction ds arbitrary: cats)
  case Nil
  then show ?case by simp
next
  case (Cons d ds)
  from Cons.prems obtain i where i: "d_id d = Some i" by auto
  let ?upd = "map (\<lambda>(c, g). if c = get_category i then (c, g @ [d]) else (c, g)) cats"
  have "(if get_category i \<in> set (map fst cats) then ?upd else cats) = ?upd"
    using group_update_absent[of "get_category i" cats d] by simp
  then have "group_detections (d # ds) cats = group_detections ds ?upd"
    using i by (simp add: Let_def)
  also have "\<dots> = Inr (map (\<lambda>(c, g). (c, g @ filter (\<lambda>x. detection_category x = Some c) ds)) ?upd)"
    using Cons.prems by (intro Cons.IH) simp
  also have "map (\<lambda>(c, g). (c, g @ filter (\<lambda>x. detection_category x = Some c) ds)) ?upd =
     map (\<lambda>(c, g). (c, g @ filter (\<lambda>x. detection_category x = Some c) (d # ds))) cats"
    using i by (auto simp: detection_category_def)
  finally show ?case .
qed

lemma issue_lines_member:
  "issue_lines title g = Inr ils \<Longrightarrow> d \<in> set g \<Longrightarrow> d_issue_found d \<Longrightarrow>
     \<exists>s. format_issue title d = Inr s \<and> ''  '' @ s \<in> set ils"
proof (induction g arbitrary: ils)
  case Nil
  then show ?case by simp
next
  case (Cons x g)
  show ?case
  proof (cases "d_issue_found x")
    case False
    with Cons show ?thesis by auto
  next
    case True
    with Cons.prems(1) obtain s ls where s: "format_issue title x = Inr s"
      and ls: "issue_lines title g = Inr ls" and ils: "ils = (''  '' @ s) # ls"
      by (auto split: sum.splits)
    show ?thesis
    proof (cases "d = x")
      case True
      with s ils show ?thesis by simp
    next
      case False
      with Cons.prems(2) have "d \<in> set g" by simp
      from Cons.IH[OF ls this Cons.prems(3)] ils show ?thesis by auto
    qed
  qed
qed

lemma issue_lines_text:
  "issue_lines title g = Inr ils \<Longrightarrow>
     ils = map (\<lambda>d. ''  '' @ issue_text title d) (filter d_issue_found g)"
proof (induction g arbitrary: ils)
  case Nil
  then show ?case by simp
next
  case (Cons x g)
  show ?case
  proof (cases "d_issue_found x")
    case False
    with Cons show ?thesis by simp
  next
    case True
    with Cons.prems obtain s ls where s: "format_issue title x = Inr s"
      and ls: "issue_lines title g = Inr ls" and ils: "ils = (''  '' @ s) # ls"
      by (auto split: sum.splits)
    from Cons.IH[OF ls] s ils True show ?thesis
      by (simp add: issue_text_def)
  qed
qed

lemma category_lines_member:
  "category_lines title cats = Inr lines \<Longrightarrow> (c, g) \<in> set cats \<Longrightarrow> g \<noteq> [] \<Longrightarrow>
     c @ '': '' @ status_icon g \<in> set lines \<and>
     (\<forall>d \<in> set g. d_issue_found d \<longrightarrow>
        (\<exists>s. format_issue title d = Inr s \<and> ''  '' @ s \<in> set lines))"
proof (induction cats arbitrary: lines)
  case Nil
  then show ?case by simp
next
  case (Cons p cats)
  obtain c' g' where p: "p = (c', g')" by (cases p)
  show ?case
  proof (cases "g' = []")
    case True
    with Cons.prems p have "category_lines title cats = Inr lines" "(c, g) \<in> set cats"
      by auto
    from Cons.IH[OF this Cons.prems(3)] show ?thesis .
  next
    case False
    with Cons.prems(1) p obtain ils ls where ils: "issue_lines title g' = Inr ils"
      and ls: "category_lines title cats = Inr ls"
      and lines: "lines = (c' @ '': '' @ status_icon g') # ils @ ls"
      by (auto split: sum.splits)
    show ?thesis
    proof (cases "(c, g) = (c', g')")
      case True
      with ils lines show ?thesis
        by (auto dest: issue_lines_member)
    next
      case False
      with Cons.prems(2) p have "(c, g) \<in> set cats" by auto
      from Cons.IH[OF ls this Cons.prems(3)] lines show ?thesis by auto
    qed
  qed
qed

lemma category_lines_blocks:
  "category_lines title cats = Inr lines \<Longrightarrow>
     lines =
       concat (map (\<lambda>(c, g). if g = [] then []
                     else (c @ '': '' @ status_icon g)
                          # map (\<lambda>d. ''  '' @ issue_text title d) (filter d_issue_found g))
                 cats)"
proof (induction cats arbitrary: lines)
  case Nil
  then show ?case by simp
next
  case (Cons p cats)
  obtain c g where p: "p = (c, g)" by (cases p)
  show ?case
  proof (cases "g = []")
    case True
    with Cons.prems p have "category_lines title cats = Inr lines" by simp
    from Cons.IH[OF this] True p show ?thesis by simp
  next
    case False
    with Cons.prems p obtain ils ls where ils: "issue_lines title g = Inr ils"
      and ls: "category_lines title cats = Inr ls"
      and lines: "lines = (c @ '': '' @ status_icon g) # ils @ ls"
      by (auto split: sum.splits)
    from Cons.IH[OF ls] issue_lines_text[OF ils] lines False p show ?thesis
      by simp
  qed
qed

lemma other_not_listed: "''Other'' \<notin> set CATEGORIES"
  by (simp add: CATEGORIES_def)

lemma get_category_range: "get_category i \<in> set CATEGORIES \<union> {''Other''}"
  by (simp add: get_category_def CATEGORIES_def)

text \<open>
  C4, as the code has it. When the section is rendered, every detection has one category,
  one of the five listed ones or \<^verbatim>\<open>Other\<close>. The section is the sequence of the blocks
  of the five listed categories, in their order: the block of a category without
  detections is empty, and the block of any other is the line of the category, with the
  status icon of its detections, followed by the formatted issues of exactly the
  unresolved detections of that category, each indented by two spaces, in the order of
  the detections. So for a detection of a listed category the section holds the line of
  the category and, when the detection is an issue, its formatted issue. The detections
  of the category \<^verbatim>\<open>Other\<close> are not rendered: the section is the one rendered without
  them.
\<close>

theorem listed_categories_rendered:
  assumes "category_status_lines title ds = Inr lines" and "d \<in> set ds"
  shows "(\<exists>i. d_id d = Some i \<and> get_category i \<in> set CATEGORIES \<union> {''Other''} \<and>
            (get_category i \<noteq> ''Other'' \<longrightarrow>
               get_category i @ '': '' @
                 status_icon (filter (\<lambda>x. detection_category x = Some (get_category i)) ds)
                 \<in> set lines \<and>
               (d_issue_found d \<longrightarrow>
                  (\<exists>s. format_issue title d = Inr s \<and> ''  '' @ s \<in> set lines)))) \<and>
         category_status_lines title
           (filter (\<lambda>x. detection_category x \<noteq> Some ''Other'') ds) = Inr lines \<and>
         lines = concat (map (category_block title ds) CATEGORIES)"
proof -
  from assms(1) obtain cats where g: "group_detections ds (map (\<lambda>c. (c, [])) CATEGORIES) = Inr cats"
    and l: "category_lines title cats = Inr lines"
    by (auto simp: category_status_lines_def split: sum.splits)
  have ids: "\<forall>x \<in> set ds. d_id x \<noteq> None"
    using group_detections_ids[OF g] by auto
  have cats: "cats = map (\<lambda>c. (c, filter (\<lambda>x. detection_category x = Some c) ds)) CATEGORIES"
    using group_detections_filter[OF ids, of "map (\<lambda>c. (c, [])) CATEGORIES"] g
    by (simp add: comp_def)
  from ids assms(2) obtain i where i: "d_id d = Some i" by auto
  have first: "get_category i @ '': '' @
        status_icon (filter (\<lambda>x. detection_category x = Some (get_category i)) ds) \<in> set lines \<and>
      (d_issue_found d \<longrightarrow> (\<exists>s. format_issue title d = Inr s \<and> ''  '' @ s \<in> set lines))"
    if no: "get_category i \<noteq> ''Other''"
  proof -
    let ?g = "filter (\<lambda>x. detection_category x = Some (get_category i)) ds"
    from no get_category_range[of i] have "get_category i \<in> set CATEGORIES" by auto
    then have m: "(get_category i, ?g) \<in> set cats"
      unfolding cats by auto
    have d: "d \<in> set ?g"
      using assms(2) i by (simp add: detection_category_def)
    from length_pos_if_in_set[OF d] have "?g \<noteq> []"
      by simp
    from category_lines_member[OF l m this] d show ?thesis by blast
  qed
  let ?ds' = "filter (\<lambda>x. detection_category x \<noteq> Some ''Other'') ds"
  have ids': "\<forall>x \<in> set ?ds'. d_id x \<noteq> None"
    using ids by simp
  have same: "filter (\<lambda>x. detection_category x = Some c) ?ds' =
      filter (\<lambda>x. detection_category x = Some c) ds" if "c \<in> set CATEGORIES" for c
  proof -
    from that other_not_listed have "c \<noteq> ''Other''" by auto
    then show ?thesis by (auto intro: filter_cong)
  qed
  have "group_detections ?ds' (map (\<lambda>c. (c, [])) CATEGORIES) = Inr cats"
    using group_detections_filter[OF ids', of "map (\<lambda>c. (c, [])) CATEGORIES"] same
    by (simp add: comp_def cats)
  with l have second: "category_status_lines title ?ds' = Inr lines"
    by (simp add: category_status_lines_def)
  have block: "category_block title ds =
      (\<lambda>c. if filter (\<lambda>x. detection_category x = Some c) ds = [] then []
           else (c @ '': '' @ status_icon (filter (\<lambda>x. detection_category x = Some c) ds))
                # map (\<lambda>d. ''  '' @ issue_text title d)
                    (filter d_issue_found (filter (\<lambda>x. detection_category x = Some c) ds)))"
    by (rule ext) (simp add: category_block_def Let_def)
  have third: "lines = concat (map (category_block title ds) CATEGORIES)"
    using category_lines_blocks[OF l]
    by (simp add: cats comp_def block)
  from i first second third get_category_range[of i] show ?thesis
    by blast
qed

theorem listed_categories_rendered_witness:
  "category_status_lines ascii_title example_detections = Inr example_lines \<and>
   example_detection ''missing-gitignore'' ''medium'' \<in> set example_detections \<and>
   get_category ''missing-gitignore'' = ''Git Configuration'' \<and>
   category_status_lines ascii_title
     (filter (\<lambda>x. detection_category x \<noteq> Some ''Other'') example_detections) =
     Inr example_lines \<and>
   example_lines = concat (map (category_block ascii_title example_detections) CATEGORIES) \<and>
   example_lines ! 0 = ''Git Configuration: '' @ icon_warning \<and>
   example_lines ! 3 = ''Setup: '' @ icon_error \<and>
   example_lines ! 4 =
     ''  '' @ icon_error @ '' Missing .editorconfig (confidence: high, severity: high)''"
proof -
  have h: "category_status_lines ascii_title example_detections = Inr example_lines"
    by code_simp
  have m: "example_detection ''missing-gitignore'' ''medium'' \<in> set example_detections"
    by (simp add: example_detections_def)
  have c: "get_category ''missing-gitignore'' = ''Git Configuration''"
    by code_simp
  have n: "example_lines ! 0 = ''Git Configuration: '' @ icon_warning"
    "example_lines ! 3 = ''Setup: '' @ icon_error"
    "example_lines ! 4 =
       ''  '' @ icon_error @ '' Missing .editorconfig (confidence: high, severity: high)''"
    by (simp_all add: example_lines_def)
  from listed_categories_rendered[OF h m] h m c n show ?thesis
    by blast
qed

theorem other_category_counterexample:
  "get_category ''missing-tests'' = ''Other'' \<and> d_issue_found example_other_issue \<and>
   d_id example_other_issue = Some ''missing-tests'' \<and>
   generate_category_status ascii_title [example_other_issue] = Inr []"
  by code_simp

end
